theory Spec2Isabelle
  imports Complex_Main
begin

section \<open>The one-vote tax game: data model\<close>

text \<open>
  The development embeds \<^verbatim>\<open>one_vote_game/__init__.py\<close>: the economic settlement
  (\<^verbatim>\<open>set_payoffs\<close>), the vote (\<^verbatim>\<open>assign_treatment\<close>), the end of the puzzle page
  (\<^verbatim>\<open>Game.before_next_page\<close>) and the live puzzle protocol (\<^verbatim>\<open>play_game\<close>).

  Conventions of the embedding.
  \<^item> Amounts of money (currency fields), probabilities and wall-clock times are exact
    rationals (\<open>rat\<close>): \<open>0.4\<close> is \<open>4/10\<close>. The rounding of the framework's currency type
    and of binary floating point is outside the model.
  \<^item> A field declared without \<^verbatim>\<open>initial=\<close> holds \<^verbatim>\<open>None\<close> until it is written: it is an
    \<open>option\<close>. Using \<^verbatim>\<open>None\<close> in arithmetic (or reading a \<^verbatim>\<open>None\<close> field of a player or
    group, which the framework refuses) raises \<^verbatim>\<open>TypeError\<close>.
  \<^item> Every \<^verbatim>\<open>raise\<close> is a value of type \<open>error\<close>, carrying the message of the source.
  \<^item> A call of \<^verbatim>\<open>random.choices([1,0], ...)\<close> returns \<^verbatim>\<open>[1]\<close> or \<^verbatim>\<open>[0]\<close>. Its outcome is
    an input of the model: \<open>draw k\<close> tells whether the \<open>k\<close>-th call made by the function
    (counted from 0) returned \<^verbatim>\<open>[1]\<close>. Probabilities are not modelled.
\<close>

datatype error =
    RuntimeError string
  | ValueError string
  | KeyError string
  | TypeError
  | AttributeError

subsection \<open>Constants\<close>

definition players_per_group :: int where
  "players_per_group = 3"

definition vote_round :: int where
  "vote_round = 2"

definition num_rounds :: int where
  "num_rounds = 2 * vote_round - 1"




definition default_audit_prob :: rat where
  "default_audit_prob = 2 / 10"

definition modified_audit_prob :: rat where
  "modified_audit_prob = 5 / 10"

definition real_effort_multiplier :: int where
  "real_effort_multiplier = 100"

subsection \<open>Records of the three models\<close>

record Group =
  total_tax_paid :: "rat option"
  individual_share :: "rat option"
  treatment :: "string option"
  total_if_vote :: "int option"
  if_override :: "bool option"
  audit_weight :: "rat option"

record Player =
  player_id :: nat
  id_in_group :: nat
  iteration :: int
  num_trials :: int
  num_correct :: int
  num_failed :: int
  real_effort_income :: "rat option"
  reported_income :: "rat option"
  tax_paid :: "rat option"
  if_audited :: "int option"
  if_vote :: "bool option"
  payoff :: "rat option"

section \<open>Settlement: \<^verbatim>\<open>set_payoffs\<close>\<close>

text \<open>
  \<^verbatim>\<open>random.choices([1,0], weights=[w, 1-w], k=1)[0]\<close>: the element chosen, given whether
  the draw picked the first one. The weights decide only how likely each outcome is.
\<close>

definition choices_1_0 :: "bool \<Rightarrow> int" where
  "choices_1_0 first = (if first then 1 else 0)"






section \<open>Vote: \<^verbatim>\<open>assign_treatment\<close>\<close>

text \<open>
  \<^verbatim>\<open>sum([p.if_vote for p in players])\<close>: a vote counts 1 when it is \<^verbatim>\<open>True\<close>, 0 when
  \<^verbatim>\<open>False\<close>; a player who has not voted makes the sum raise.
\<close>

fun sum_if_vote :: "Player list \<Rightarrow> error + int" where
  "sum_if_vote [] = Inr 0"
| "sum_if_vote (p # ps) =
     (case if_vote p of
        None \<Rightarrow> Inl TypeError
      | Some v \<Rightarrow>
          (case sum_if_vote ps of
             Inl e \<Rightarrow> Inl e
           | Inr n \<Rightarrow> Inr ((if v then 1 else 0) + n)))"

text \<open>
  The override coin is the first draw. The second coin is drawn only when the override
  fires. \<^verbatim>\<open>if_override\<close> is a boolean field: the 1 and 0 written to it are \<open>True\<close> and
  \<open>False\<close>. \<^verbatim>\<open>players_per_group/2\<close> is Python's true division: 1.5.
\<close>

definition assign_treatment :: "(nat \<Rightarrow> bool) \<Rightarrow> Group \<Rightarrow> Player list \<Rightarrow> error + Group" where
  "assign_treatment draw g players =
     (case sum_if_vote players of
        Inl e \<Rightarrow> Inl e
      | Inr n \<Rightarrow>
          (let g1 = g\<lparr>total_if_vote := Some n\<rparr>;
               g2 = (if (of_int n :: rat) > of_int players_per_group / 2
                     then g1\<lparr>treatment := Some ''EndoYes''\<rparr>
                     else g1\<lparr>treatment := Some ''EndoNo''\<rparr>);
               computer_control = choices_1_0 (draw 0)
           in if computer_control = 1
              then (let g3 = g2\<lparr>if_override := Some True\<rparr>;
                        dice = choices_1_0 (draw 1)
                    in if dice = 1
                       then Inr (g3\<lparr>treatment := Some ''ExoYes''\<rparr>)
                       else Inr (g3\<lparr>treatment := Some ''ExoNo''\<rparr>))
              else Inr (g2\<lparr>if_override := Some False\<rparr>)))"

section \<open>Session parameters\<close>

text \<open>
  \<^verbatim>\<open>session.params\<close>, filled by \<^verbatim>\<open>creating_session\<close> from the session configuration, with
  the defaults of the source for the keys the configuration leaves out.
\<close>

record params =
  retry_delay :: rat
  puzzle_delay :: rat
  attempts_per_puzzle :: int
  max_iterations :: "int option"

definition defaults :: params where
  "defaults = \<lparr>retry_delay = 1, puzzle_delay = 1, attempts_per_puzzle = 1, max_iterations = None\<rparr>"

text \<open>Python's truth value of \<^verbatim>\<open>params['max_iterations']\<close>: \<^verbatim>\<open>None\<close> and 0 are false.\<close>

definition truthy :: "int option \<Rightarrow> bool" where
  "truthy v = (case v of None \<Rightarrow> False | Some n \<Rightarrow> n \<noteq> 0)"

section \<open>End of the puzzle page: \<^verbatim>\<open>Game.before_next_page\<close>\<close>

text \<open>
  The framework creates the group's record of every round when the session is created:
  \<open>groups r\<close> is the record of the player's group in round \<open>r\<close>, so that
  \<^verbatim>\<open>player.group\<close> is \<open>groups round_number\<close> and \<^verbatim>\<open>player.group.in_round(n)\<close> is \<open>groups n\<close>.
  Reading the treatment of the vote round while it is still unset raises, as every read
  of an unset field of a group does.
\<close>

definition before_next_page ::
  "params \<Rightarrow> int \<Rightarrow> (int \<Rightarrow> Group) \<Rightarrow> Player \<Rightarrow> bool \<Rightarrow> error + Player \<times> (int \<Rightarrow> Group)" where
  "before_next_page ps round_number groups player timeout_happened =
     (if \<not> timeout_happened \<and> \<not> truthy (max_iterations ps)
      then Inl (RuntimeError ''malicious page submission'')
      else
        (let player' = player\<lparr>real_effort_income :=
                                Some (of_int (num_correct player * real_effort_multiplier))\<rparr>
         in if round_number < vote_round
            then Inr (player',
                      groups(round_number :=
                        (groups round_number)\<lparr>audit_weight := Some default_audit_prob\<rparr>))
            else
              (case treatment (groups vote_round) of
                 None \<Rightarrow> Inl TypeError
               | Some t \<Rightarrow>
                   (let groups' = groups(round_number := (groups round_number)\<lparr>treatment := Some t\<rparr>)
                    in if t = ''EndoYes'' \<or> t = ''ExoYes''
                       then Inr (player',
                                 groups'(round_number :=
                                   (groups' round_number)\<lparr>audit_weight := Some modified_audit_prob\<rparr>))
                       else Inr (player',
                                 groups'(round_number :=
                                   (groups' round_number)\<lparr>audit_weight := Some default_audit_prob\<rparr>))))))"

section \<open>The live puzzle protocol: \<^verbatim>\<open>play_game\<close>\<close>

subsection \<open>Puzzle records and the task provider\<close>

text \<open>
  A row of the \<^verbatim>\<open>Puzzle\<close> table. \<open>player\<close> is the link to the player (the player's id);
  \<open>puzzle_text\<close> is the field \<^verbatim>\<open>text\<close>. \<open>Player.iteration\<close> is the counter of the player,
  \<open>Puzzle.iteration\<close> its value when the row was created.
\<close>

record Puzzle =
  player :: nat
  iteration :: int
  attempts :: int
  timestamp :: rat
  puzzle_text :: string
  solution :: string
  response :: "string option"
  response_timestamp :: "rat option"
  is_correct :: "bool option"

text \<open>
  The task module chosen by \<^verbatim>\<open>get_task_module\<close> is a parameter: how it judges an answer
  (\<^verbatim>\<open>is_correct(answer, puzzle)\<close>) and what the client receives for a puzzle
  (\<^verbatim>\<open>encode_image(render_image(puzzle))\<close>).
\<close>

record task_module =
  tm_is_correct :: "string \<Rightarrow> Puzzle \<Rightarrow> bool"
  tm_encode :: "Puzzle \<Rightarrow> string"

text \<open>
  What one call of \<^verbatim>\<open>play_game\<close> reads from outside: the clock at its start (\<open>now\<close>), the
  clock when \<^verbatim>\<open>generate_puzzle\<close> stamps a new row (\<open>now_created\<close>), \<^verbatim>\<open>settings.DEBUG\<close>,
  and the text and solution that \<^verbatim>\<open>generate_puzzle_fields\<close> returns if it is called.
\<close>

record env =
  now :: rat
  now_created :: rat
  DEBUG :: bool
  puzzle_fields :: "string \<times> string"

text \<open>
  A message is a dictionary from keys to values; a value is a string or \<^verbatim>\<open>None\<close>.
\<close>

type_synonym message = "string \<rightharpoonup> string option"

text \<open>\<^verbatim>\<open>get_progress\<close>: \<open>num_trials\<close>, \<open>num_correct\<close>, \<open>num_incorrect\<close>, \<open>iteration\<close>.\<close>

datatype progress = Progress int int int int

text \<open>
  The dictionaries sent back, by \<^verbatim>\<open>type\<close>:
  \<open>Status progress puzzle iterations_left\<close> (the last two are optional keys),
  \<open>Solution solution\<close>, \<open>PuzzleMsg puzzle progress\<close> and
  \<open>Feedback is_correct retries_left progress\<close>.
  A response \<^verbatim>\<open>{my_id: payload}\<close> is the pair of the addressee and the payload.
\<close>

datatype payload =
    Status progress "string option" "int option"
  | Solution string
  | PuzzleMsg string progress
  | Feedback bool int progress

type_synonym response = "nat \<times> payload"

text \<open>The state that \<^verbatim>\<open>play_game\<close> reads and writes: the player and the puzzle table.\<close>

type_synonym state = "Player \<times> Puzzle list"

subsection \<open>The functions\<close>

definition generate_puzzle :: "env \<Rightarrow> Player \<Rightarrow> Puzzle list \<Rightarrow> Puzzle \<times> Player \<times> Puzzle list" where
  "generate_puzzle e p table =
     (let p' = p\<lparr>Player.iteration := Player.iteration p + 1\<rparr>;
          z = \<lparr>player = player_id p', iteration = Player.iteration p', attempts = 0,
               timestamp = now_created e, puzzle_text = fst (puzzle_fields e), solution = snd (puzzle_fields e),
               response = None, response_timestamp = None, is_correct = None\<rparr>
      in (z, p', table @ [z]))"

text \<open>
  \<^verbatim>\<open>Puzzle.filter(player=player, iteration=player.iteration)\<close>, as the positions of the
  matching rows.
\<close>

definition current_rows :: "Player \<Rightarrow> Puzzle list \<Rightarrow> nat list" where
  "current_rows p table =
     filter (\<lambda>i. player (table ! i) = player_id p \<and>
                 Puzzle.iteration (table ! i) = Player.iteration p) [0..<length table]"

text \<open>
  The current puzzle is returned as its position in the table, since \<^verbatim>\<open>play_game\<close> writes
  to the row. Unpacking \<^verbatim>\<open>[puzzle] = puzzles\<close> raises when several rows match.
\<close>

definition get_current_puzzle :: "Player \<Rightarrow> Puzzle list \<Rightarrow> error + nat option" where
  "get_current_puzzle p table =
     (case current_rows p table of
        [] \<Rightarrow> Inr None
      | [i] \<Rightarrow> Inr (Some i)
      | _ \<Rightarrow> Inl (ValueError ''too many values to unpack''))"

definition encode_puzzle :: "task_module \<Rightarrow> Puzzle \<Rightarrow> string" where
  "encode_puzzle tm z = tm_encode tm z"

definition get_progress :: "Player \<Rightarrow> progress" where
  "get_progress p = Progress (num_trials p) (num_correct p) (num_failed p) (Player.iteration p)"

text \<open>
  A call of \<^verbatim>\<open>play_game\<close> returns what it answered or raised together with the state it
  left: assignments made before a \<^verbatim>\<open>raise\<close> stay made.

  The branch of a \<^verbatim>\<open>next\<close> message.
\<close>

definition play_game_next ::
  "task_module \<Rightarrow> params \<Rightarrow> env \<Rightarrow> nat option \<Rightarrow> state \<Rightarrow> (error + response) \<times> state" where
  "play_game_next tm ps e current st =
     (let (p, table) = st;
          my_id = id_in_group p;
          issue = (let (z, p', table') = generate_puzzle e p table
                   in (Inr (my_id, PuzzleMsg (encode_puzzle tm z) (get_progress p')), (p', table')))
      in case current of
           None \<Rightarrow> issue
         | Some i \<Rightarrow>
             (if response (table ! i) = None
              then (Inl (RuntimeError ''trying to skip over unsolved puzzle''), st)
              else if now e < timestamp (table ! i) + puzzle_delay ps
              then (Inl (RuntimeError ''retrying too fast''), st)
              else if max_iterations ps = Some (Puzzle.iteration (table ! i))
              then (Inr (my_id, Status (get_progress p) None (Some 0)), st)
              else issue))"

text \<open>
  The retry block of an \<^verbatim>\<open>answer\<close> message: the two checks, then the undoing of the
  previous attempt's count.
\<close>

definition retry_undo :: "params \<Rightarrow> env \<Rightarrow> Puzzle \<Rightarrow> Player \<Rightarrow> error + Player" where
  "retry_undo ps e c p =
     (if response c \<noteq> None
      then (if attempts c \<ge> attempts_per_puzzle ps
            then Inl (RuntimeError ''no more attempts allowed'')
            else (case response_timestamp c of
                    None \<Rightarrow> Inl TypeError
                  | Some rt \<Rightarrow>
                      (if now e < rt + retry_delay ps
                       then Inl (RuntimeError ''retrying too fast'')
                       else (let p1 = p\<lparr>num_trials := num_trials p - 1\<rparr>
                             in if is_correct c = Some True
                                then Inr (p1\<lparr>num_correct := num_correct p1 - 1\<rparr>)
                                else Inr (p1\<lparr>num_failed := num_failed p1 - 1\<rparr>)))))
      else Inr p)"

text \<open>The branch of an \<^verbatim>\<open>answer\<close> message.\<close>

definition play_game_answer ::
  "task_module \<Rightarrow> params \<Rightarrow> env \<Rightarrow> message \<Rightarrow> nat option \<Rightarrow> state \<Rightarrow> (error + response) \<times> state" where
  "play_game_answer tm ps e message current st =
     (let (p, table) = st;
          my_id = id_in_group p
      in case current of
           None \<Rightarrow> (Inl (RuntimeError ''trying to answer no puzzle''), st)
         | Some i \<Rightarrow>
             (case retry_undo ps e (table ! i) p of
                Inl err \<Rightarrow> (Inl err, st)
              | Inr p1 \<Rightarrow>
                  (case message ''answer'' of
                     None \<Rightarrow> (Inl (KeyError ''answer''), (p1, table))
                   | Some None \<Rightarrow> (Inl (ValueError ''bogus answer''), (p1, table))
                   | Some (Some answer) \<Rightarrow>
                       (if answer = ''''
                        then (Inl (ValueError ''bogus answer''), (p1, table))
                        else
                          (let c1 = (table ! i)\<lparr>response := Some answer\<rparr>;
                               ok = tm_is_correct tm answer c1;
                               c2 = c1\<lparr>is_correct := Some ok,
                                       response_timestamp := Some (now e),
                                       attempts := attempts c1 + 1\<rparr>;
                               p2 = (if ok then p1\<lparr>num_correct := num_correct p1 + 1\<rparr>
                                     else p1\<lparr>num_failed := num_failed p1 + 1\<rparr>);
                               p3 = p2\<lparr>num_trials := num_trials p2 + 1\<rparr>;
                               retries_left = attempts_per_puzzle ps - attempts c2
                           in (Inr (my_id, Feedback ok retries_left (get_progress p3)),
                               (p3, table[i := c2])))))))"

definition play_game ::
  "task_module \<Rightarrow> params \<Rightarrow> env \<Rightarrow> message \<Rightarrow> state \<Rightarrow> (error + response) \<times> state" where
  "play_game tm ps e message st =
     (let (p, table) = st;
          my_id = id_in_group p
      in case get_current_puzzle p table of
           Inl err \<Rightarrow> (Inl err, st)
         | Inr current \<Rightarrow>
             (case message ''type'' of
                None \<Rightarrow> (Inl (KeyError ''type''), st)
              | Some message_type \<Rightarrow>
                  (if message_type = Some ''load''
                   then (case current of
                           Some i \<Rightarrow>
                             (Inr (my_id, Status (get_progress p)
                                            (Some (encode_puzzle tm (table ! i))) None), st)
                         | None \<Rightarrow> (Inr (my_id, Status (get_progress p) None None), st))
                   else if message_type = Some ''cheat'' \<and> DEBUG e
                   then (case current of
                           Some i \<Rightarrow> (Inr (my_id, Solution (solution (table ! i))), st)
                         | None \<Rightarrow> (Inl AttributeError, st))
                   else if message_type = Some ''next''
                   then play_game_next tm ps e current st
                   else if message_type = Some ''answer''
                   then play_game_answer tm ps e message current st
                   else (Inl (RuntimeError ''unrecognized message from client''), st))))"

subsection \<open>A run of the live channel\<close>

text \<open>
  The channel hands the player's messages to \<^verbatim>\<open>play_game\<close> one after another, each with
  its own clock and provider output, on the state the previous call left. \<open>run\<close> collects
  what each call answered or raised.
\<close>

fun run ::
  "task_module \<Rightarrow> params \<Rightarrow> (env \<times> message) list \<Rightarrow> state \<Rightarrow> (error + response) list \<times> state" where
  "run tm ps [] st = ([], st)"
| "run tm ps (em # rest) st =
     (let (out, st') = play_game tm ps (fst em) (snd em) st;
          (outs, st'') = run tm ps rest st'
      in (out # outs, st''))"

text \<open>A call issued a puzzle when it answered with a \<^verbatim>\<open>puzzle\<close> message.\<close>

fun issued :: "error + response \<Rightarrow> bool" where
  "issued (Inr (_, PuzzleMsg _ _)) = True"
| "issued _ = False"


subsection \<open>What the counters should say\<close>



subsection \<open>The current puzzle among the rows\<close>

text \<open>
  No row of the player is ahead of the player's iteration counter; the number of rows of
  the player that carry the current iteration.
\<close>

definition rows_bounded :: "Player \<Rightarrow> Puzzle list \<Rightarrow> bool" where
  "rows_bounded p table =
     list_all (\<lambda>z. player z = player_id p \<longrightarrow> Puzzle.iteration z \<le> Player.iteration p) table"

definition current_count :: "Player \<Rightarrow> Puzzle list \<Rightarrow> nat" where
  "current_count p table =
     length (filter (\<lambda>z. player z = player_id p \<and> Puzzle.iteration z = Player.iteration p) table)"

section \<open>Sample records\<close>

text \<open>
  A player and a group as the framework creates them at the start of a round: counters at
  their initial value 0, every other field unset.
\<close>

definition player0 :: Player where
  "player0 = \<lparr>player_id = 1, id_in_group = 1, Player.iteration = 0, num_trials = 0, num_correct = 0,
     num_failed = 0, real_effort_income = None, reported_income = None, tax_paid = None,
     if_audited = None, if_vote = None, payoff = None\<rparr>"

definition group0 :: Group where
  "group0 = \<lparr>total_tax_paid = None, individual_share = None, treatment = None,
     total_if_vote = None, if_override = None, audit_weight = None\<rparr>"


text \<open>The group has the same fresh record in every round.\<close>

definition groups0 :: "int \<Rightarrow> Group" where
  "groups0 = (\<lambda>r. group0)"

text \<open>
  A transcription task: the answer is right when it equals the solution, and the client is
  shown the text. The clock reads \<open>t\<close> during a whole call; the provider generates
  \<open>abc\<close> with solution \<open>abc\<close>.
\<close>

definition tm0 :: task_module where
  "tm0 = \<lparr>tm_is_correct = (\<lambda>a z. a = solution z), tm_encode = puzzle_text\<rparr>"

definition env_at :: "rat \<Rightarrow> env" where
  "env_at t = \<lparr>now = t, now_created = t, DEBUG = False, puzzle_fields = (''abc'', ''abc'')\<rparr>"

definition msg_next :: message where
  "msg_next = [''type'' \<mapsto> Some ''next'']"

definition msg_answer :: "string \<Rightarrow> message" where
  "msg_answer a = [''type'' \<mapsto> Some ''answer'', ''answer'' \<mapsto> Some a]"

text \<open>
  The first puzzle of \<open>player0\<close>, issued at time 0, once answered with \<open>a\<close> at time \<open>t\<close>,
  and the player after that answer.
\<close>

definition answered_row :: "string \<Rightarrow> rat \<Rightarrow> Puzzle" where
  "answered_row a t =
     \<lparr>player = 1, iteration = 1, attempts = 1, timestamp = 0, puzzle_text = ''abc'',
      solution = ''abc'', response = Some a, response_timestamp = Some t,
      is_correct = Some (a = ''abc'')\<rparr>"

definition answered_player :: "string \<Rightarrow> Player" where
  "answered_player a =
     (if a = ''abc''
      then player0\<lparr>Player.iteration := 1, num_trials := 1, num_correct := 1\<rparr>
      else player0\<lparr>Player.iteration := 1, num_trials := 1, num_failed := 1\<rparr>)"

section \<open>Verified properties\<close>

subsection \<open>Settlement\<close>














subsection \<open>Vote\<close>

lemma sum_if_vote_count:
  "map if_vote ps = map Some vs \<Longrightarrow> sum_if_vote ps = Inr (int (length (filter (\<lambda>v. v) vs)))"
  by (induction ps arbitrary: vs) auto

lemma more_than_half_of_three:
  "(rat_of_int players_per_group < rat_of_nat n * 2) = (2 \<le> n)"
proof -
  have "(rat_of_int 3 < rat_of_nat n * 2) = (rat_of_nat 3 < rat_of_nat (n * 2))"
    by simp
  also have "\<dots> = (3 < n * 2)"
    by (simp only: of_nat_less_iff)
  also have "\<dots> = (2 \<le> n)" by arith
  finally show ?thesis by (simp add: players_per_group_def)
qed

text \<open>
  Claim C3. In \<^verbatim>\<open>assign_treatment\<close>, \<open>total_if_vote\<close> is the number of players who voted
  yes, whatever the coins. If the override coin does not fire, \<open>if_override\<close> is false and
  the treatment is \<open>EndoYes\<close> when at least 2 voted yes, which in a group of three is
  exactly when strictly more than half did, and \<open>EndoNo\<close> otherwise. If the override coin
  fires, \<open>if_override\<close> is true and the treatment is \<open>ExoYes\<close> or \<open>ExoNo\<close> as the second coin
  says, whatever the tally. The function returns as soon as every player has voted.
\<close>

theorem assign_treatment_vote:
  assumes "map if_vote ps = map Some vs"
  shows "\<exists>g'. assign_treatment draw g ps = Inr g' \<and>
           total_if_vote g' = Some (int (length (filter (\<lambda>v. v) vs))) \<and>
           (\<not> draw 0 \<longrightarrow>
              if_override g' = Some False \<and>
              treatment g' = Some (if 2 \<le> length (filter (\<lambda>v. v) vs) then ''EndoYes'' else ''EndoNo'') \<and>
              (length ps = 3 \<longrightarrow>
                 (treatment g' = Some ''EndoYes'') = (length ps < 2 * length (filter (\<lambda>v. v) vs)))) \<and>
           (draw 0 \<longrightarrow>
              if_override g' = Some True \<and>
              treatment g' = Some (if draw 1 then ''ExoYes'' else ''ExoNo''))"
proof -
  let ?n = "length (filter (\<lambda>v. v) vs)"
  have s: "sum_if_vote ps = Inr (int ?n)"
    by (rule sum_if_vote_count [OF assms])
  have three: "(2 \<le> ?n) = (length ps < 2 * ?n)" if "length ps = 3"
    using that by arith
  show ?thesis
    using three by (simp add: assign_treatment_def s more_than_half_of_three choices_1_0_def Let_def)
qed

theorem assign_treatment_vote_witness:
  "map if_vote [player0\<lparr>if_vote := Some True\<rparr>, player0\<lparr>if_vote := Some True\<rparr>,
                player0\<lparr>if_vote := Some False\<rparr>] = map Some [True, True, False] \<and>
   (\<exists>g'. assign_treatment (\<lambda>k. False) group0
            [player0\<lparr>if_vote := Some True\<rparr>, player0\<lparr>if_vote := Some True\<rparr>,
             player0\<lparr>if_vote := Some False\<rparr>] = Inr g' \<and>
      total_if_vote g' = Some 2 \<and> if_override g' = Some False \<and> treatment g' = Some ''EndoYes'') \<and>
   (\<exists>g'. assign_treatment (\<lambda>k. k = 0) group0
            [player0\<lparr>if_vote := Some True\<rparr>, player0\<lparr>if_vote := Some True\<rparr>,
             player0\<lparr>if_vote := Some False\<rparr>] = Inr g' \<and>
      total_if_vote g' = Some 2 \<and> if_override g' = Some True \<and> treatment g' = Some ''ExoNo'')"
proof -
  let ?ps = "[player0\<lparr>if_vote := Some True\<rparr>, player0\<lparr>if_vote := Some True\<rparr>,
              player0\<lparr>if_vote := Some False\<rparr>]"
  have h: "map if_vote ?ps = map Some [True, True, False]"
    by simp
  from assign_treatment_vote [OF h, of "\<lambda>k. False" group0]
       assign_treatment_vote [OF h, of "\<lambda>k. k = 0" group0] h
  show ?thesis by simp
qed

subsection \<open>End of the puzzle page\<close>

text \<open>
  Claim C4. When \<^verbatim>\<open>before_next_page\<close> passes its integrity check in a round after the vote
  round, the group's \<open>treatment\<close> of that round becomes the treatment stored in the record
  of the vote round, which is read and left as it is, and \<open>audit_weight\<close> becomes the
  modified probability 0.5 when that treatment is \<open>EndoYes\<close> or \<open>ExoYes\<close> and the default 0.2
  otherwise. In a round before the vote round, \<open>audit_weight\<close> becomes the default 0.2.
\<close>

theorem before_next_page_treatment:
  assumes "timeout_happened \<or> truthy (max_iterations ps)"
  shows "(round_number < vote_round \<longrightarrow>
            (\<exists>p' groups'. before_next_page ps round_number groups p timeout_happened = Inr (p', groups') \<and>
               audit_weight (groups' round_number) = Some (2 / 10) \<and>
               groups' vote_round = groups vote_round)) \<and>
         (vote_round < round_number \<longrightarrow>
            (\<forall>t. treatment (groups vote_round) = Some t \<longrightarrow>
               (\<exists>p' groups'. before_next_page ps round_number groups p timeout_happened = Inr (p', groups') \<and>
                  treatment (groups' round_number) = Some t \<and>
                  audit_weight (groups' round_number) =
                    Some (if t = ''EndoYes'' \<or> t = ''ExoYes'' then 5 / 10 else 2 / 10) \<and>
                  groups' vote_round = groups vote_round)))"
  using assms
  by (auto simp: before_next_page_def Let_def default_audit_prob_def modified_audit_prob_def)

theorem before_next_page_treatment_witness:
  "(True \<or> truthy (max_iterations defaults)) \<and>
   (3::int) > vote_round \<and>
   treatment ((groups0(2 := group0\<lparr>treatment := Some ''ExoYes''\<rparr>)) vote_round) = Some ''ExoYes'' \<and>
   (\<exists>p' groups'. before_next_page defaults 3 (groups0(2 := group0\<lparr>treatment := Some ''ExoYes''\<rparr>)) player0 True
                    = Inr (p', groups') \<and>
      treatment (groups' 3) = Some ''ExoYes'' \<and> audit_weight (groups' 3) = Some (5 / 10))"
proof -
  have h: "True \<or> truthy (max_iterations defaults)" by simp
  have r: "(3::int) > vote_round" by (simp add: vote_round_def)
  have t: "treatment ((groups0(2 := group0\<lparr>treatment := Some ''ExoYes''\<rparr>)) vote_round) = Some ''ExoYes''"
    by (simp add: vote_round_def)
  from before_next_page_treatment [OF h, of 3 "groups0(2 := group0\<lparr>treatment := Some ''ExoYes''\<rparr>)" player0] r t
  show ?thesis by auto
qed

text \<open>
  Claim C9, as amended. \<^verbatim>\<open>before_next_page\<close> raises the integrity error exactly when no
  timeout happened and \<open>max_iterations\<close> is not configured (\<^verbatim>\<open>None\<close> or 0), whatever the
  player's iteration counter. With a timeout, or with a nonzero \<open>max_iterations\<close>
  configured, it goes on and sets \<open>real_effort_income\<close> to \<open>num_correct \<times> 100\<close>; it then
  returns when the round is before the vote round or the vote round has a treatment.
\<close>

theorem before_next_page_integrity:
  "(before_next_page ps round_number groups p timeout_happened
      = Inl (RuntimeError ''malicious page submission'')) =
     (\<not> timeout_happened \<and> (max_iterations ps = None \<or> max_iterations ps = Some 0)) \<and>
   ((timeout_happened \<or> (\<exists>n. max_iterations ps = Some n \<and> n \<noteq> 0)) \<and>
    (round_number < vote_round \<or> treatment (groups vote_round) \<noteq> None) \<longrightarrow>
      (\<exists>p' groups'. before_next_page ps round_number groups p timeout_happened = Inr (p', groups') \<and>
         real_effort_income p' = Some (of_int (num_correct p * 100))))"
  by (auto simp: before_next_page_def Let_def truthy_def real_effort_multiplier_def
      split: option.splits)

theorem before_next_page_integrity_witness:
  "(False \<or> (\<exists>n. max_iterations (defaults\<lparr>max_iterations := Some 5\<rparr>) = Some n \<and> n \<noteq> 0)) \<and>
   (1 < vote_round \<or> treatment (groups0 vote_round) \<noteq> None) \<and>
   (\<exists>p' groups'. before_next_page (defaults\<lparr>max_iterations := Some 5\<rparr>) 1 groups0
                    (player0\<lparr>Player.iteration := 2, num_correct := 2\<rparr>) False = Inr (p', groups') \<and>
      real_effort_income p' = Some 200)"
proof -
  have h1: "False \<or> (\<exists>n. max_iterations (defaults\<lparr>max_iterations := Some 5\<rparr>) = Some n \<and> n \<noteq> 0)"
    by simp
  have h2: "1 < vote_round \<or> treatment (groups0 vote_round) \<noteq> None"
    by (simp add: vote_round_def)
  from before_next_page_integrity [of "defaults\<lparr>max_iterations := Some 5\<rparr>" 1 groups0
      "player0\<lparr>Player.iteration := 2, num_correct := 2\<rparr>" False] h1 h2
  have "\<exists>p' groups'. before_next_page (defaults\<lparr>max_iterations := Some 5\<rparr>) 1 groups0
                    (player0\<lparr>Player.iteration := 2, num_correct := 2\<rparr>) False = Inr (p', groups') \<and>
      real_effort_income p' =
        Some (of_int (num_correct (player0\<lparr>Player.iteration := 2, num_correct := 2\<rparr>) * 100))"
    by blast
  then have "\<exists>p' groups'. before_next_page (defaults\<lparr>max_iterations := Some 5\<rparr>) 1 groups0
                    (player0\<lparr>Player.iteration := 2, num_correct := 2\<rparr>) False = Inr (p', groups') \<and>
      real_effort_income p' = Some 200"
    by simp
  with h1 h2 show ?thesis by blast
qed

text \<open>
  Claim C9 as stated fails: with \<open>max_iterations = 5\<close>, a player at iteration 2, who has not
  used up the budget, finalizes without a timeout and no error is raised.
\<close>

theorem before_next_page_budget_left_counterexample:
  "Player.iteration (player0\<lparr>Player.iteration := 2, num_correct := 2\<rparr>) = 2 \<and>
   max_iterations (defaults\<lparr>max_iterations := Some 5\<rparr>) = Some 5 \<and>
   \<not> isl (before_next_page (defaults\<lparr>max_iterations := Some 5\<rparr>) 1 groups0
            (player0\<lparr>Player.iteration := 2, num_correct := 2\<rparr>) False) \<and>
   real_effort_income (fst (projr (before_next_page (defaults\<lparr>max_iterations := Some 5\<rparr>) 1 groups0
            (player0\<lparr>Player.iteration := 2, num_correct := 2\<rparr>) False))) = Some 200"
  by (simp add: before_next_page_def truthy_def vote_round_def real_effort_multiplier_def)

subsection \<open>The live puzzle protocol\<close>

lemma play_game_next_msg:
  "get_current_puzzle p table = Inr current \<Longrightarrow> message ''type'' = Some (Some ''next'') \<Longrightarrow>
     play_game tm ps e message (p, table) = play_game_next tm ps e current (p, table)"
  by (simp add: play_game_def)

lemma play_game_answer_msg:
  "get_current_puzzle p table = Inr current \<Longrightarrow> message ''type'' = Some (Some ''answer'') \<Longrightarrow>
     play_game tm ps e message (p, table) = play_game_answer tm ps e message current (p, table)"
  by (simp add: play_game_def)

text \<open>
  Claim C8. While the player's current puzzle has no response, a \<^verbatim>\<open>next\<close> message raises
  the protocol error \<open>trying to skip over unsolved puzzle\<close>, and a \<^verbatim>\<open>next\<close> message on a
  current puzzle raises this error only then. Any number of \<^verbatim>\<open>next\<close> messages in a row, at
  any times, all fail this way and leave the player and the puzzle table as they were: no
  puzzle is created and the iteration counter does not move.
\<close>

theorem next_on_unanswered_fails:
  assumes "get_current_puzzle p table = Inr (Some i)"
    and "\<forall>em\<in>set steps. snd em ''type'' = Some (Some ''next'')"
    and "message ''type'' = Some (Some ''next'')"
  shows "((fst (play_game tm ps e message (p, table))
             = Inl (RuntimeError ''trying to skip over unsolved puzzle''))
          = (response (table ! i) = None)) \<and>
         (response (table ! i) = None \<longrightarrow>
            run tm ps steps (p, table) =
              (replicate (length steps) (Inl (RuntimeError ''trying to skip over unsolved puzzle'')),
               (p, table)))"
proof (intro conjI impI)
  show "(fst (play_game tm ps e message (p, table))
             = Inl (RuntimeError ''trying to skip over unsolved puzzle''))
          = (response (table ! i) = None)"
    by (simp add: play_game_next_msg [where message = message, OF assms(1) assms(3)] play_game_next_def generate_puzzle_def
        Let_def)
next
  assume un: "response (table ! i) = None"
  from assms(2) show "run tm ps steps (p, table) =
              (replicate (length steps) (Inl (RuntimeError ''trying to skip over unsolved puzzle'')),
               (p, table))"
  proof (induction steps)
    case Nil
    then show ?case by simp
  next
    case (Cons em steps)
    from Cons.prems have nx: "snd em ''type'' = Some (Some ''next'')" by simp
    have "play_game tm ps (fst em) (snd em) (p, table) =
            (Inl (RuntimeError ''trying to skip over unsolved puzzle''), (p, table))"
      by (simp add: play_game_next_msg [where message = "snd em", OF assms(1) nx] play_game_next_def un)
    moreover from Cons have "run tm ps steps (p, table) =
              (replicate (length steps) (Inl (RuntimeError ''trying to skip over unsolved puzzle'')),
               (p, table))" by simp
    ultimately show ?case by simp
  qed
qed

theorem next_on_unanswered_fails_witness:
  "get_current_puzzle (player0\<lparr>Player.iteration := 1\<rparr>)
      [(answered_row ''abc'' 10)\<lparr>response := None\<rparr>] = Inr (Some 0) \<and>
   snd (env_at 1, msg_next) ''type'' = Some (Some ''next'') \<and>
   snd (env_at 50, msg_next) ''type'' = Some (Some ''next'') \<and>
   msg_next ''type'' = Some (Some ''next'') \<and>
   response ([(answered_row ''abc'' 10)\<lparr>response := None\<rparr>] ! 0) = None \<and>
   fst (play_game tm0 defaults (env_at 50) msg_next
          (player0\<lparr>Player.iteration := 1\<rparr>, [(answered_row ''abc'' 10)\<lparr>response := None\<rparr>]))
     = Inl (RuntimeError ''trying to skip over unsolved puzzle'') \<and>
   run tm0 defaults [(env_at 1, msg_next), (env_at 50, msg_next)]
     (player0\<lparr>Player.iteration := 1\<rparr>, [(answered_row ''abc'' 10)\<lparr>response := None\<rparr>])
     = ([Inl (RuntimeError ''trying to skip over unsolved puzzle''),
         Inl (RuntimeError ''trying to skip over unsolved puzzle'')],
        (player0\<lparr>Player.iteration := 1\<rparr>, [(answered_row ''abc'' 10)\<lparr>response := None\<rparr>]))"
proof -
  let ?p = "player0\<lparr>Player.iteration := 1\<rparr>"
  let ?table = "[(answered_row ''abc'' 10)\<lparr>response := None\<rparr>]"
  let ?steps = "[(env_at 1, msg_next), (env_at 50, msg_next)]"
  have h1: "get_current_puzzle ?p ?table = Inr (Some 0)"
    by (simp add: get_current_puzzle_def current_rows_def player0_def answered_row_def)
  have h2: "\<forall>em\<in>set ?steps. snd em ''type'' = Some (Some ''next'')"
    by (simp add: msg_next_def)
  have h3: "msg_next ''type'' = Some (Some ''next'')"
    by (simp add: msg_next_def)
  have h4: "response (?table ! 0) = None" by simp
  from next_on_unanswered_fails [where message = msg_next and tm = tm0 and ps = defaults
      and e = "env_at 50", OF h1 h2 h3] h1 h2 h3 h4
  show ?thesis by simp
qed




lemma length_filter_update:
  "i < length xs \<Longrightarrow>
     int (length (filter P (xs[i := y]))) =
       int (length (filter P xs)) - (if P (xs ! i) then 1 else 0) + (if P y then 1 else 0)"
proof (induction xs arbitrary: i)
  case Nil
  then show ?case by simp
next
  case (Cons x xs)
  show ?case
  proof (cases i)
    case 0
    then show ?thesis by simp
  next
    case (Suc j)
    with Cons.prems have "j < length xs" by simp
    from Cons.IH [OF this] Suc show ?thesis by (auto split: if_splits)
  qed
qed

lemma get_current_puzzle_Some:
  assumes "get_current_puzzle p table = Inr (Some i)"
  shows "i < length table" and "player (table ! i) = player_id p"
    and "Puzzle.iteration (table ! i) = Player.iteration p"
proof -
  from assms have "current_rows p table = [i]"
    by (auto simp: get_current_puzzle_def split: list.splits)
  then have "i \<in> set (current_rows p table)" by simp
  then show "i < length table" and "player (table ! i) = player_id p"
    and "Puzzle.iteration (table ! i) = Player.iteration p"
    by (simp_all add: current_rows_def)
qed



text \<open>
  Claim C10 on a retry with an empty answer. The player is issued a puzzle, answers it
  correctly (\<open>num_trials = 1\<close>, \<open>num_correct = 1\<close>), then, with two attempts allowed, sends an
  \<^verbatim>\<open>answer\<close> message whose answer is empty. The call raises \<open>bogus answer\<close>, after the count
  of the previous attempt has been undone: it leaves \<open>num_trials = 0\<close> and \<open>num_correct = 0\<close>,
  while the puzzle still holds its correct response.
\<close>

theorem answer_bogus_retry_not_atomic:
  "run tm0 (defaults\<lparr>attempts_per_puzzle := 2\<rparr>)
       [(env_at 0, msg_next), (env_at 2, msg_answer ''abc'')] (player0, [])
     = ([Inr (1, PuzzleMsg ''abc'' (Progress 0 0 0 1)), Inr (1, Feedback True 1 (Progress 1 1 0 1))],
        (answered_player ''abc'', [answered_row ''abc'' 2])) \<and>
   play_game tm0 (defaults\<lparr>attempts_per_puzzle := 2\<rparr>) (env_at 5) (msg_answer '''')
       (answered_player ''abc'', [answered_row ''abc'' 2])
     = (Inl (ValueError ''bogus answer''),
        (player0\<lparr>Player.iteration := 1, num_trials := 0, num_correct := 0\<rparr>,
         [answered_row ''abc'' 2])) \<and>
   num_trials (answered_player ''abc'') = 1 \<and>
   num_correct (answered_player ''abc'') = 1"
  by (simp add: play_game_def play_game_next_def play_game_answer_def retry_undo_def
      get_current_puzzle_def current_rows_def generate_puzzle_def encode_puzzle_def
      get_progress_def answered_player_def answered_row_def player0_def env_at_def tm0_def
      msg_next_def msg_answer_def defaults_def Let_def)

lemma retry_undo_first_attempt: "response c = None \<Longrightarrow> retry_undo ps e c p = Inr p"
  by (simp add: retry_undo_def)

lemma play_game_answer_after_undo:
  assumes "retry_undo ps e (table ! i) p = Inr p1"
    and "fst (play_game_answer tm ps e message (Some i) (p, table)) = Inl err"
  shows "(err = KeyError ''answer'' \<or> err = ValueError ''bogus answer'') \<and>
         snd (play_game_answer tm ps e message (Some i) (p, table)) = (p1, table)"
proof (cases "message ''answer''")
  case None
  with assms show ?thesis by (auto simp: play_game_answer_def)
next
  case (Some v)
  show ?thesis
  proof (cases v)
    case None
    with assms Some show ?thesis by (auto simp: play_game_answer_def)
  next
    case (Some answer)
    with assms \<open>message ''answer'' = Some v\<close> show ?thesis
      by (cases "answer = []") (auto simp: play_game_answer_def Let_def)
  qed
qed

text \<open>
  The other aborts of an \<^verbatim>\<open>answer\<close> message happen before anything is written: with no
  current puzzle, on a first attempt, or when the attempts are used up or the retry comes
  too fast, the state is left as it was.
\<close>

lemma answer_abort_early_keeps_state:
  assumes "get_current_puzzle p table = Inr current"
    and "message ''type'' = Some (Some ''answer'')"
    and "fst (play_game tm ps e message (p, table)) = Inl err"
    and "current = None \<or> response (table ! the current) = None \<or>
         err = RuntimeError ''no more attempts allowed'' \<or> err = RuntimeError ''retrying too fast''"
  shows "snd (play_game tm ps e message (p, table)) = (p, table)"
proof -
  note pg = play_game_answer_msg [where message = message, OF assms(1) assms(2)]
  show ?thesis
  proof (cases current)
    case None
    then show ?thesis by (simp add: pg play_game_answer_def)
  next
    case (Some i)
    show ?thesis
    proof (cases "retry_undo ps e (table ! i) p")
      case (Inl err')
      with Some show ?thesis by (simp add: pg play_game_answer_def)
    next
      case (Inr p1)
      from assms(3) have "fst (play_game_answer tm ps e message (Some i) (p, table)) = Inl err"
        by (simp add: pg Some)
      from play_game_answer_after_undo [OF Inr this]
      have err: "err = KeyError ''answer'' \<or> err = ValueError ''bogus answer''"
        and st: "snd (play_game_answer tm ps e message (Some i) (p, table)) = (p1, table)"
        by simp_all
      from err assms(4) Some have "response (table ! i) = None" by auto
      from retry_undo_first_attempt [OF this] Inr have "p1 = p" by simp
      with st show ?thesis by (simp add: pg Some)
    qed
  qed
qed

lemma current_rows_count: "length (current_rows p table) = current_count p table"
proof -
  let ?P = "\<lambda>z. player z = player_id p \<and> Puzzle.iteration z = Player.iteration p"
  have "filter ?P table = filter ?P (map ((!) table) [0..<length table])"
    by (simp add: map_nth)
  also have "\<dots> = map ((!) table) (filter (?P \<circ> (!) table) [0..<length table])"
    by (simp only: filter_map)
  finally have "length (filter ?P table) = length (filter (?P \<circ> (!) table) [0..<length table])"
    by simp
  then show ?thesis by (simp add: current_rows_def current_count_def comp_def)
qed

lemma current_count_update:
  assumes "i < length table" "player c = player (table ! i)"
    and "Puzzle.iteration c = Puzzle.iteration (table ! i)"
  shows "current_count p (table[i := c]) = current_count p table"
proof -
  let ?P = "\<lambda>z. player z = player_id p \<and> Puzzle.iteration z = Player.iteration p"
  from length_filter_update [OF assms(1), of ?P c] assms(2,3)
  have "int (length (filter ?P (table[i := c]))) = int (length (filter ?P table))" by simp
  then show ?thesis by (simp add: current_count_def)
qed

lemma rows_bounded_update:
  assumes "rows_bounded p table" "i < length table" "player c = player (table ! i)"
    and "Puzzle.iteration c = Puzzle.iteration (table ! i)"
  shows "rows_bounded p (table[i := c])"
proof -
  from assms(1,2) have "player (table ! i) = player_id p \<longrightarrow> Puzzle.iteration (table ! i) \<le> Player.iteration p"
    by (simp add: rows_bounded_def list_all_length)
  with assms show ?thesis
    by (auto simp: rows_bounded_def list_all_length nth_list_update)
qed

lemma generate_puzzle_inv:
  assumes "rows_bounded p table" and "generate_puzzle e p table = (z, p', table')"
  shows "rows_bounded p' table'" and "current_count p' table' = 1"
    and "player_id p' = player_id p" and "Player.iteration p' = Player.iteration p + 1"
proof -
  from assms(2) have p': "p' = p\<lparr>Player.iteration := Player.iteration p + 1\<rparr>"
    and table': "table' = table @ [z]"
    and z: "player z = player_id p" "Puzzle.iteration z = Player.iteration p + 1"
    by (auto simp: generate_puzzle_def Let_def)
  show "player_id p' = player_id p" "Player.iteration p' = Player.iteration p + 1"
    by (simp_all add: p')
  from assms(1) show "rows_bounded p' table'"
    by (auto simp: rows_bounded_def list_all_iff p' table' z)
  from assms(1) have "filter (\<lambda>z. player z = player_id p \<and> Puzzle.iteration z = Player.iteration p + 1) table = []"
    by (auto simp: rows_bounded_def list_all_iff filter_empty_conv)
  then show "current_count p' table' = 1"
    by (simp add: current_count_def p' table' z)
qed

lemma play_game_next_inv:
  assumes "rows_bounded p table" "current_count p table \<le> 1"
    and "play_game_next tm ps e current (p, table) = (out, (p', table'))"
  shows "rows_bounded p' table' \<and> current_count p' table' \<le> 1 \<and> player_id p' = player_id p \<and>
         Player.iteration p' = Player.iteration p + (if issued out then 1 else 0)"
proof (cases "\<exists>z. out = Inr (id_in_group p, PuzzleMsg (encode_puzzle tm z) (get_progress p')) \<and>
                generate_puzzle e p table = (z, p', table')")
  case True
  then obtain z where out: "out = Inr (id_in_group p, PuzzleMsg (encode_puzzle tm z) (get_progress p'))"
    and g: "generate_puzzle e p table = (z, p', table')" by blast
  from generate_puzzle_inv [OF assms(1) g] out show ?thesis by simp
next
  case False
  with assms(3) have "p' = p \<and> table' = table \<and> \<not> issued out"
    by (auto simp: play_game_next_def Let_def split: option.splits if_splits prod.splits)
  with assms(1,2) show ?thesis by simp
qed

lemma retry_undo_same_player:
  "retry_undo ps e c p = Inr p1 \<Longrightarrow>
     player_id p1 = player_id p \<and> Player.iteration p1 = Player.iteration p \<and>
     id_in_group p1 = id_in_group p"
  by (auto simp: retry_undo_def Let_def split: if_splits option.splits)

lemma inv_same_player:
  assumes "player_id p1 = player_id p" "Player.iteration p1 = Player.iteration p"
  shows "rows_bounded p1 table = rows_bounded p table"
    and "current_count p1 table = current_count p table"
  using assms by (simp_all add: rows_bounded_def current_count_def)

lemma play_game_answer_effect:
  assumes "play_game_answer tm ps e message current (p, table) = (out, (p', table'))"
  shows "player_id p' = player_id p \<and> Player.iteration p' = Player.iteration p \<and> \<not> issued out \<and>
         (table' = table \<or>
          (\<exists>i c. current = Some i \<and> table' = table[i := c] \<and> player c = player (table ! i) \<and>
                 Puzzle.iteration c = Puzzle.iteration (table ! i)))"
proof (cases current)
  case None
  with assms show ?thesis by (auto simp: play_game_answer_def)
next
  case (Some i)
  show ?thesis
  proof (cases "retry_undo ps e (table ! i) p")
    case (Inl err)
    with assms Some show ?thesis by (auto simp: play_game_answer_def)
  next
    case (Inr p1)
    note same = retry_undo_same_player [OF Inr]
    from assms Some Inr same show ?thesis
      by (auto simp: play_game_answer_def Let_def split: option.splits if_splits)
  qed
qed

lemma play_game_inv:
  assumes inv: "rows_bounded p table" "current_count p table \<le> 1"
    and step: "play_game tm ps e message (p, table) = (out, (p', table'))"
  shows "rows_bounded p' table' \<and> current_count p' table' \<le> 1 \<and> player_id p' = player_id p \<and>
         Player.iteration p' = Player.iteration p + (if issued out then 1 else 0)"
proof (cases "get_current_puzzle p table")
  case (Inl err)
  with step inv show ?thesis by (auto simp: play_game_def Let_def)
next
  case (Inr current)
  show ?thesis
  proof (cases "message ''type''")
    case None
    with step inv Inr show ?thesis by (auto simp: play_game_def Let_def)
  next
    case (Some message_type)
    consider (load) "message_type = Some ''load''"
      | (cheat) "message_type \<noteq> Some ''load''" "message_type = Some ''cheat'' \<and> DEBUG e"
      | (nxt) "message_type = Some ''next''"
      | (answer) "message_type = Some ''answer''"
      | (other) "message_type \<noteq> Some ''load''" "\<not> (message_type = Some ''cheat'' \<and> DEBUG e)"
          "message_type \<noteq> Some ''next''" "message_type \<noteq> Some ''answer''"
      by blast
    then show ?thesis
    proof cases
      case load
      with step inv Inr Some show ?thesis
        by (auto simp: play_game_def Let_def split: option.splits)
    next
      case cheat
      with step inv Inr Some show ?thesis
        by (auto simp: play_game_def Let_def split: option.splits)
    next
      case nxt
      with Some have "message ''type'' = Some (Some ''next'')" by simp
      from step [unfolded play_game_next_msg [where message = message, OF Inr this]]
      show ?thesis by (rule play_game_next_inv [OF inv])
    next
      case answer
      with Some have "message ''type'' = Some (Some ''answer'')" by simp
      from step [unfolded play_game_answer_msg [where message = message, OF Inr this]]
      have eff: "player_id p' = player_id p \<and> Player.iteration p' = Player.iteration p \<and> \<not> issued out \<and>
         (table' = table \<or>
          (\<exists>i c. current = Some i \<and> table' = table[i := c] \<and> player c = player (table ! i) \<and>
                 Puzzle.iteration c = Puzzle.iteration (table ! i)))"
        by (rule play_game_answer_effect)
      then have same: "player_id p' = player_id p" "Player.iteration p' = Player.iteration p"
        and no: "\<not> issued out" by simp_all
      from eff consider "table' = table"
        | i c where "current = Some i" "table' = table[i := c]" "player c = player (table ! i)"
            "Puzzle.iteration c = Puzzle.iteration (table ! i)"
        by blast
      then have "rows_bounded p table' \<and> current_count p table' \<le> 1"
      proof cases
        case 1
        with inv show ?thesis by simp
      next
        case 2
        from Inr 2(1) have "i < length table"
          by (simp add: get_current_puzzle_Some(1))
        with inv 2 show ?thesis
          by (simp add: rows_bounded_update current_count_update)
      qed
      with same no show ?thesis
        by (simp add: inv_same_player [OF same])
    next
      case other
      with step inv Inr Some show ?thesis
        by (auto simp: play_game_def Let_def)
    qed
  qed
qed

lemma run_inv:
  assumes "rows_bounded p table" "current_count p table \<le> 1"
    and "run tm ps steps (p, table) = (outs, (p', table'))"
  shows "rows_bounded p' table' \<and> current_count p' table' \<le> 1 \<and> player_id p' = player_id p \<and>
         Player.iteration p' = Player.iteration p + int (length (filter issued outs))"
  using assms
proof (induction steps arbitrary: p table outs p' table')
  case Nil
  then show ?case by auto
next
  case (Cons em steps)
  obtain out p1 table1 where step: "play_game tm ps (fst em) (snd em) (p, table) = (out, (p1, table1))"
    by (metis prod.collapse)
  obtain outs1 p2 table2 where rest: "run tm ps steps (p1, table1) = (outs1, (p2, table2))"
    by (metis prod.collapse)
  from Cons.prems(3) step rest have eq: "outs = out # outs1" "p2 = p'" "table2 = table'"
    by simp_all
  from play_game_inv [OF Cons.prems(1,2) step]
  have inv1: "rows_bounded p1 table1" "current_count p1 table1 \<le> 1"
    and id1: "player_id p1 = player_id p"
    and it1: "Player.iteration p1 = Player.iteration p + (if issued out then 1 else 0)"
    by simp_all
  from Cons.IH [OF inv1 rest] id1 it1 eq show ?case by simp
qed

lemma get_current_puzzle_returns:
  assumes "current_count p table \<le> 1"
  shows "\<exists>c. get_current_puzzle p table = Inr c"
proof -
  from assms have "length (current_rows p table) \<le> 1"
    by (simp add: current_rows_count)
  then show ?thesis
    by (cases "current_rows p table" rule: list.exhaust [case_names Nil Cons])
      (auto simp: get_current_puzzle_def split: list.splits)
qed

text \<open>
  Claim C7. Start from a player none of whose puzzle rows is ahead of the iteration
  counter and at most one of whose rows carries it, as a new player with no rows. After
  any sequence of messages, valid or not, handled one after another by \<^verbatim>\<open>play_game\<close>, the
  iteration counter has grown by the number of calls that issued a puzzle, so that it
  equals that number when it started at 0, and at most one puzzle row of the player
  carries the current iteration, so that the lookup of the current puzzle does not
  raise. This holds after every prefix of the sequence too.
\<close>

theorem run_iteration_counts_issues:
  assumes "rows_bounded p table" "current_count p table \<le> 1"
    and "run tm ps steps (p, table) = (outs, (p', table'))"
  shows "Player.iteration p' = Player.iteration p + int (length (filter issued outs)) \<and>
         (Player.iteration p = 0 \<longrightarrow> Player.iteration p' = int (length (filter issued outs))) \<and>
         current_count p' table' \<le> 1 \<and>
         (\<exists>c. get_current_puzzle p' table' = Inr c) \<and>
         (\<forall>k. current_count (fst (snd (run tm ps (take k steps) (p, table))))
                            (snd (snd (run tm ps (take k steps) (p, table)))) \<le> 1 \<and>
              Player.iteration (fst (snd (run tm ps (take k steps) (p, table)))) =
                Player.iteration p +
                int (length (filter issued (fst (run tm ps (take k steps) (p, table))))))"
proof -
  have pre: "current_count (fst (snd (run tm ps (take k steps) (p, table))))
                            (snd (snd (run tm ps (take k steps) (p, table)))) \<le> 1 \<and>
              Player.iteration (fst (snd (run tm ps (take k steps) (p, table)))) =
                Player.iteration p +
                int (length (filter issued (fst (run tm ps (take k steps) (p, table)))))" for k
  proof -
    obtain outs1 p1 table1 where r: "run tm ps (take k steps) (p, table) = (outs1, (p1, table1))"
      by (metis prod.collapse)
    from run_inv [OF assms(1,2) r] show ?thesis by (simp add: r)
  qed
  from run_inv [OF assms] have "current_count p' table' \<le> 1" by simp
  from get_current_puzzle_returns [OF this] run_inv [OF assms] pre show ?thesis by simp
qed

theorem run_iteration_counts_issues_witness:
  "rows_bounded player0 [] \<and> current_count player0 [] \<le> 1 \<and>
   Player.iteration player0 = 0 \<and>
   (\<exists>outs p' table'.
      run tm0 defaults [(env_at 0, msg_next), (env_at 2, msg_answer ''abc''),
                        (env_at 5, msg_next), (env_at 6, msg_next)] (player0, [])
        = (outs, (p', table')) \<and>
      map issued outs = [True, False, True, False] \<and>
      Player.iteration p' = 2 \<and> current_count p' table' \<le> 1)"
proof -
  let ?steps = "[(env_at 0, msg_next), (env_at 2, msg_answer ''abc''),
                 (env_at 5, msg_next), (env_at 6, msg_next)]"
  have h1: "rows_bounded player0 []" by (simp add: rows_bounded_def)
  have h2: "current_count player0 [] \<le> 1" by (simp add: current_count_def)
  have h3: "Player.iteration player0 = 0" by (simp add: player0_def)
  obtain outs p' table' where r: "run tm0 defaults ?steps (player0, []) = (outs, (p', table'))"
    by (metis prod.collapse)
  have "fst (run tm0 defaults ?steps (player0, [])) =
          [Inr (1, PuzzleMsg ''abc'' (Progress 0 0 0 1)),
           Inr (1, Feedback True 0 (Progress 1 1 0 1)),
           Inr (1, PuzzleMsg ''abc'' (Progress 1 1 0 2)),
           Inl (RuntimeError ''trying to skip over unsolved puzzle'')]"
    by (simp add: play_game_def play_game_next_def play_game_answer_def retry_undo_def
        get_current_puzzle_def current_rows_def generate_puzzle_def encode_puzzle_def
        get_progress_def player0_def env_at_def tm0_def msg_next_def msg_answer_def
        defaults_def Let_def)
  with r have outs: "map issued outs = [True, False, True, False]" by auto
  then have "length (filter issued outs) = 2"
    by (auto simp: map_eq_Cons_conv)
  with run_iteration_counts_issues [OF h1 h2 r] h3
  have fin: "Player.iteration p' = 2 \<and> current_count p' table' \<le> 1" by simp
  have "\<exists>outs p' table'.
      run tm0 defaults ?steps (player0, []) = (outs, (p', table')) \<and>
      map issued outs = [True, False, True, False] \<and>
      Player.iteration p' = 2 \<and> current_count p' table' \<le> 1"
    using r outs fin by (intro exI [of _ outs] exI [of _ p'] exI [of _ table']) simp
  with h1 h2 h3 show ?thesis by simp
qed

end
